theory Spec2Isabelle
  imports Complex_Main
begin

section \<open>Gamma-gamma absorption of agnpy: the numeric model\<close>

text \<open>
  The module \<^verbatim>\<open>agnpy/absorption.py\<close> computes with numpy arrays of double precision
  floats and astropy quantities. The model below reads every float as a real number and
  every quantity as its value in CGS units: rounding, overflow, NaN and unit conversion are
  outside of it. What the code does beyond arithmetic is kept: the order of the
  computation, the shapes of the arrays, the index assignments and the exceptions numpy
  raises on them.
\<close>

datatype error = IndexError | UnboundLocalError | ValueError

text \<open>
  The physical constants come from \<^verbatim>\<open>astropy.constants\<close> and are parameters of the
  model: the Planck constant, the speed of light, the electron mass, the Thomson cross
  section (all CGS) and the parsec in centimetres.
\<close>

record phys =
  h_cgs :: real
  c_cgs :: real
  m_e :: real
  sigma_T :: real
  pc_cm :: real

text \<open>\<^verbatim>\<open>mec2 = m_e.to("erg", equivalencies=u.mass_energy())\<close>\<close>

definition mec2 :: "phys \<Rightarrow> real" where
  "mec2 P = m_e P * (c_cgs P)\<^sup>2"

subsection \<open>The cross section\<close>

text \<open>
  \<^verbatim>\<open>
  def sigma(s):
      beta_cm = np.sqrt(1 - np.power(s, -1))
      _prefactor = 3 / 16 * sigma_T * (1 - np.power(beta_cm, 2))
      _term1 = (3 - np.power(beta_cm, 4)) * np.log((1 + beta_cm) / (1 - beta_cm))
      _term2 = -2 * beta_cm * (2 - np.power(beta_cm, 2))
      values = _prefactor * (_term1 + _term2)
      values[s < 1] = 0
      return values
  \<close>
  Every line is element-wise; \<open>sigma_elem\<close> is what happens to one element, the mask
  assignment included, and \<open>sigma\<close> is the function on a (flattened) array.
\<close>

definition sigma_elem :: "phys \<Rightarrow> real \<Rightarrow> real" where
  "sigma_elem P s =
     (let beta_cm = sqrt (1 - 1 / s);
          prefactor = 3 / 16 * sigma_T P * (1 - beta_cm\<^sup>2);
          term1 = (3 - beta_cm ^ 4) * ln ((1 + beta_cm) / (1 - beta_cm));
          term2 = - 2 * beta_cm * (2 - beta_cm\<^sup>2);
          values = prefactor * (term1 + term2)
      in if s < 1 then 0 else values)"

definition sigma :: "phys \<Rightarrow> real list \<Rightarrow> real list" where
  "sigma P s = map (sigma_elem P) s"

subsection \<open>The geometry helpers\<close>

text \<open>
  Modelled from the spec: \<^verbatim>\<open>cos_psi\<close>, imported from \<^verbatim>\<open>agnpy/compton.py\<close>, which
  is not among the sources. The cosine of the angle between the two photon directions by
  the spherical law of cosines.
\<close>

definition cos_psi :: "real \<Rightarrow> real \<Rightarrow> real \<Rightarrow> real" where
  "cos_psi mu1 mu2 phi = mu1 * mu2 + sqrt (1 - mu1\<^sup>2) * sqrt (1 - mu2\<^sup>2) * cos phi"

text \<open>
  Modelled from the spec: \<^verbatim>\<open>x_re_shell\<close> of \<^verbatim>\<open>agnpy/compton.py\<close>, the distance from
  the emission point on a shell of radius \<open>R\<close> to the field point at path length \<open>l\<close>.
\<close>

definition x_re_shell :: "real \<Rightarrow> real \<Rightarrow> real \<Rightarrow> real" where
  "x_re_shell mu R l = sqrt (R\<^sup>2 + l\<^sup>2 - 2 * R * l * mu)"

text \<open>Modelled from the spec: \<^verbatim>\<open>x_re_ring\<close> of \<^verbatim>\<open>agnpy/compton.py\<close>.\<close>

definition x_re_ring :: "real \<Rightarrow> real \<Rightarrow> real" where
  "x_re_ring R l = sqrt (R\<^sup>2 + l\<^sup>2)"

text \<open>
  Modelled from the spec: \<^verbatim>\<open>mu_star\<close> of \<^verbatim>\<open>agnpy/compton.py\<close>, the cosine seen from
  the field point.
\<close>

definition mu_star :: "real \<Rightarrow> real \<Rightarrow> real \<Rightarrow> real" where
  "mu_star mu R l = (l - R * mu) / x_re_shell mu R l"

subsection \<open>numpy: linspace, logspace, trapz, empty, item assignment\<close>

text \<open>
  \<^verbatim>\<open>np.linspace(start, stop, num)\<close> raises \<^verbatim>\<open>ValueError\<close> on a negative \<open>num\<close>;
  otherwise it returns \<open>start + i * step\<close> for \<open>i < num\<close>, with
  \<open>step = (stop - start) / (num - 1)\<close>, and writes \<open>stop\<close> itself into the last cell
  when \<open>num > 1\<close>. With \<open>num = 1\<close> the result is \<open>[start]\<close>.
\<close>

definition linspace :: "real \<Rightarrow> real \<Rightarrow> int \<Rightarrow> error + real list" where
  "linspace start stop num =
     (if num < 0 then Inl ValueError
      else let n = nat num; step = (stop - start) / real (n - 1)
           in Inr (map (\<lambda>i. if 1 < n \<and> i = n - 1 then stop else start + real i * step)
                       [0..<n]))"

text \<open>\<^verbatim>\<open>np.logspace(start, stop, num)\<close> is \<open>10 ** linspace(start, stop, num)\<close>.\<close>

definition logspace :: "real \<Rightarrow> real \<Rightarrow> int \<Rightarrow> error + real list" where
  "logspace start stop num =
     (case linspace start stop num of
        Inl e \<Rightarrow> Inl e
      | Inr y \<Rightarrow> Inr (map (\<lambda>v. 10 powr v) y))"

text \<open>
  \<^verbatim>\<open>np.trapz(y, x, axis=0)\<close> is \<open>sum (diff(x) * (y[1:] + y[:-1]) / 2)\<close>: zero on fewer
  than two samples. Every call of the module integrates an array computed on the very grid
  it integrates over, so the two lengths agree.
\<close>

fun trapz :: "real list \<Rightarrow> real list \<Rightarrow> real" where
  "trapz (y0 # y1 # ys) (x0 # x1 # xs) =
     (x1 - x0) * (y1 + y0) / 2 + trapz (y1 # ys) (x1 # xs)"
| "trapz _ _ = 0"

text \<open>
  \<^verbatim>\<open>np.empty(n)\<close> returns \<open>n\<close> cells of whatever the allocator hands out: the contents
  are an argument of the model. \<^verbatim>\<open>a[i] = v\<close> with \<open>i\<close> not below the length raises
  \<^verbatim>\<open>IndexError\<close> (the indices of the module are never negative).
\<close>

definition np_empty :: "(nat \<Rightarrow> real) \<Rightarrow> nat \<Rightarrow> real list" where
  "np_empty cells n = map cells [0..<n]"

definition setitem :: "real list \<Rightarrow> nat \<Rightarrow> real \<Rightarrow> error + real list" where
  "setitem a i v = (if i < length a then Inr (a[i := v]) else Inl IndexError)"

subsection \<open>The emission region and the targets\<close>

text \<open>
  Of the blob, the module reads the redshift \<^verbatim>\<open>z\<close> and the viewing-angle cosine
  \<^verbatim>\<open>mu_s\<close>. The targets are the three classes of \<^verbatim>\<open>agnpy/targets.py\<close>, which is not
  among the sources: their attributes are fields, and the three methods of the disk that
  \<^verbatim>\<open>_opacity_disk\<close> calls are fields of function type (element-wise in \<open>mu\<close>).
  \<open>Unsupported\<close> stands for an object of any other class.
\<close>

record blob =
  blob_z :: real
  blob_mu_s :: real

record ssdisk =
  R_g :: real
  ss_L_disk :: real
  eta :: real
  mu_from_r_tilde :: "real \<Rightarrow> real list"
  epsilon_mu :: "real \<Rightarrow> real \<Rightarrow> real"
  phi_disk_mu :: "real \<Rightarrow> real \<Rightarrow> real"

record blr =
  xi_line :: real
  blr_L_disk :: real
  epsilon_line :: real
  R_line :: real

record torus =
  xi_dt :: real
  dt_L_disk :: real
  epsilon_dt :: real
  R_dt :: real

datatype target =
    SSDisk ssdisk
  | SphericalShellBLR blr
  | RingDustTorus torus
  | Unsupported

subsection \<open>The Absorption object and its grids\<close>

record absorption =
  self_blob :: blob
  self_target :: target
  self_r :: real
  self_mu_size :: int
  self_mu :: "real list"
  self_phi_size :: int
  self_phi :: "real list"
  self_l_size :: int
  self_l :: "real list"

text \<open>
  A setter stores the size first and the grid second, so a call that raises leaves the
  new size beside the old grid. The result is the object after the call and the exception,
  if one was raised.
  \<^verbatim>\<open>
  def set_mu(self, mu_size=100):
      self.mu_size = mu_size
      self.mu = np.linspace(-1, 1, self.mu_size)
  \<close>
\<close>

definition set_mu :: "int \<Rightarrow> absorption \<Rightarrow> absorption \<times> error option" where
  "set_mu mu_size A =
     (let A1 = A\<lparr>self_mu_size := mu_size\<rparr>
      in case linspace (- 1) 1 (self_mu_size A1) of
           Inl e \<Rightarrow> (A1, Some e)
         | Inr g \<Rightarrow> (A1\<lparr>self_mu := g\<rparr>, None))"

text \<open>
  \<^verbatim>\<open>
  def set_phi(self, phi_size=50):
      self.phi_size = phi_size
      self.phi = np.linspace(0, 2 * np.pi, self.phi_size)
  \<close>
\<close>

definition set_phi :: "int \<Rightarrow> absorption \<Rightarrow> absorption \<times> error option" where
  "set_phi phi_size A =
     (let A1 = A\<lparr>self_phi_size := phi_size\<rparr>
      in case linspace 0 (2 * pi) (self_phi_size A1) of
           Inl e \<Rightarrow> (A1, Some e)
         | Inr g \<Rightarrow> (A1\<lparr>self_phi := g\<rparr>, None))"

text \<open>
  \<^verbatim>\<open>
  def set_l(self, l_size=10):
      self.l_size = l_size
      l_max = 3000 * u.pc
      self.l = (np.logspace(np.log10(self.r.to_value("cm")),
                            np.log10(l_max.to_value("cm")), self.l_size) * u.cm)
  \<close>
\<close>

definition set_l :: "phys \<Rightarrow> int \<Rightarrow> absorption \<Rightarrow> absorption \<times> error option" where
  "set_l P l_size A =
     (let A1 = A\<lparr>self_l_size := l_size\<rparr>;
          l_max = 3000 * pc_cm P
      in case logspace (log 10 (self_r A1)) (log 10 l_max) (self_l_size A1) of
           Inl e \<Rightarrow> (A1, Some e)
         | Inr g \<Rightarrow> (A1\<lparr>self_l := g\<rparr>, None))"

text \<open>Sequencing of two calls on the object: an exception ends the sequence.\<close>

definition and_then ::
  "absorption \<times> error option \<Rightarrow> (absorption \<Rightarrow> absorption \<times> error option)
     \<Rightarrow> absorption \<times> error option" where
  "and_then m f = (case snd m of Some e \<Rightarrow> m | None \<Rightarrow> f (fst m))"

text \<open>
  \<^verbatim>\<open>
  def __init__(self, blob, target, r):
      self.blob = blob
      self.target = target
      self.r = r
      self.set_mu()
      self.set_phi()
      self.set_l()
  \<close>
  The six grid attributes do not exist before the three setters run; the record starts
  them at \<open>0\<close> and \<open>[]\<close>, and each default call overwrites its two.
\<close>

definition init :: "phys \<Rightarrow> blob \<Rightarrow> target \<Rightarrow> real \<Rightarrow> absorption \<times> error option" where
  "init P blob target r =
     and_then (and_then
       (set_mu 100
          \<lparr>self_blob = blob, self_target = target, self_r = r,
           self_mu_size = 0, self_mu = [], self_phi_size = 0, self_phi = [],
           self_l_size = 0, self_l = []\<rparr>)
       (set_phi 50))
       (set_l P 10)"

subsection \<open>The three opacities\<close>

text \<open>
  \<^verbatim>\<open>epsilon_1 = nu.to("", equivalencies=epsilon_equivalency); epsilon_1 *= 1 + self.blob.z\<close>,
  the conversion being \<open>h.cgs * x / mec2\<close>.
\<close>

definition epsilon_1_of :: "phys \<Rightarrow> absorption \<Rightarrow> real list \<Rightarrow> real list" where
  "epsilon_1_of P A nu =
     map (\<lambda>e. e * (1 + blob_z (self_blob A))) (map (\<lambda>x. h_cgs P * x / mec2 P) nu)"

text \<open>
  The shell and the ring work on one broadcast array. An array whose entry at the indices
  \<open>(i, j, k, m)\<close> is a function of \<open>mu[i]\<close>, \<open>phi[j]\<close>, \<open>l[k]\<close> and \<open>epsilon_1[m]\<close> is
  written as that function; \<^verbatim>\<open>np.trapz(_, grid, axis=0)\<close> integrates the leading axis
  and leaves an array over the remaining ones.
  \<^verbatim>\<open>
  _x = x_re_shell(_mu, self.target.R_line, _l)
  _mu_star = mu_star(_mu, self.target.R_line, _l)
  _cos_psi = cos_psi(self.blob.mu_s, _mu_star, _phi)
  _s = _epsilon_1 * self.target.epsilon_line * (1 - _cos_psi) / 2
  _integrand = (1 - _cos_psi) * np.power(_x, -2) * sigma(_s)
  prefactor_num = self.target.xi_line * self.target.L_disk
  prefactor_denum = np.power(4 * np.pi, 2) * self.target.epsilon_line * m_e * np.power(c, 3)
  integral_mu = np.trapz(_integrand, self.mu, axis=0)
  integral_phi = np.trapz(integral_mu, self.phi, axis=0)
  integral = np.trapz(integral_phi, self.l, axis=0)
  tau = prefactor_num / prefactor_denum * integral
  \<close>
\<close>

definition shell_integrand ::
  "phys \<Rightarrow> absorption \<Rightarrow> blr \<Rightarrow> real \<Rightarrow> real \<Rightarrow> real \<Rightarrow> real \<Rightarrow> real" where
  "shell_integrand P A T mu phi l e1 =
     (let x = x_re_shell mu (R_line T) l;
          mu_star' = mu_star mu (R_line T) l;
          cos_psi' = cos_psi (blob_mu_s (self_blob A)) mu_star' phi;
          s = e1 * epsilon_line T * (1 - cos_psi') / 2
      in (1 - cos_psi') * (1 / x\<^sup>2) * sigma_elem P s)"

definition shell_integral :: "phys \<Rightarrow> absorption \<Rightarrow> blr \<Rightarrow> real \<Rightarrow> real" where
  "shell_integral P A T e1 =
     (let integral_mu = (\<lambda>phi l.
            trapz (map (\<lambda>mu. shell_integrand P A T mu phi l e1) (self_mu A)) (self_mu A));
          integral_phi = (\<lambda>l.
            trapz (map (\<lambda>phi. integral_mu phi l) (self_phi A)) (self_phi A))
      in trapz (map integral_phi (self_l A)) (self_l A))"

definition opacity_shell_blr :: "phys \<Rightarrow> absorption \<Rightarrow> blr \<Rightarrow> real list \<Rightarrow> real list" where
  "opacity_shell_blr P A T nu =
     (let epsilon_1 = epsilon_1_of P A nu;
          prefactor_num = xi_line T * blr_L_disk T;
          prefactor_denum = (4 * pi)\<^sup>2 * epsilon_line T * m_e P * (c_cgs P) ^ 3
      in map (\<lambda>e1. prefactor_num / prefactor_denum * shell_integral P A T e1) epsilon_1)"

text \<open>
  \<^verbatim>\<open>
  _x = x_re_ring(self.target.R_dt, _l)
  _mu = _l / _x
  _cos_psi = cos_psi(self.blob.mu_s, _mu, _phi)
  _s = _epsilon_1 * self.target.epsilon_dt * (1 - _cos_psi) / 2
  _integrand = (1 - _cos_psi) * np.power(_x, -2) * sigma(_s)
  prefactor_num = self.target.xi_dt * self.target.L_disk
  prefactor_denum = np.power(4 * np.pi, 2) * self.target.epsilon_dt * m_e * np.power(c, 3)
  integral_phi = np.trapz(_integrand, self.phi, axis=0)
  integral = np.trapz(integral_phi, self.l, axis=0)
  tau = prefactor_num / prefactor_denum * integral
  \<close>
\<close>

definition ring_integrand ::
  "phys \<Rightarrow> absorption \<Rightarrow> torus \<Rightarrow> real \<Rightarrow> real \<Rightarrow> real \<Rightarrow> real" where
  "ring_integrand P A T phi l e1 =
     (let x = x_re_ring (R_dt T) l;
          mu = l / x;
          cos_psi' = cos_psi (blob_mu_s (self_blob A)) mu phi;
          s = e1 * epsilon_dt T * (1 - cos_psi') / 2
      in (1 - cos_psi') * (1 / x\<^sup>2) * sigma_elem P s)"

definition ring_integral :: "phys \<Rightarrow> absorption \<Rightarrow> torus \<Rightarrow> real \<Rightarrow> real" where
  "ring_integral P A T e1 =
     (let integral_phi = (\<lambda>l.
            trapz (map (\<lambda>phi. ring_integrand P A T phi l e1) (self_phi A)) (self_phi A))
      in trapz (map integral_phi (self_l A)) (self_l A))"

definition opacity_ring_torus :: "phys \<Rightarrow> absorption \<Rightarrow> torus \<Rightarrow> real list \<Rightarrow> real list" where
  "opacity_ring_torus P A T nu =
     (let epsilon_1 = epsilon_1_of P A nu;
          prefactor_num = xi_dt T * dt_L_disk T;
          prefactor_denum = (4 * pi)\<^sup>2 * epsilon_dt T * m_e P * (c_cgs P) ^ 3
      in map (\<lambda>e1. prefactor_num / prefactor_denum * ring_integral P A T e1) epsilon_1)"

text \<open>
  The disk is written with two explicit loops.
  \<^verbatim>\<open>
  integral = np.empty(len(epsilon_1))
  for i, _epsilon_1 in enumerate(epsilon_1):
      integrand_l = np.empty(len(self.l))
      for j, _l in enumerate(self.l):
          l_tilde = (_l / self.target.R_g).to_value("")
          _phi = np.reshape(self.phi, (1, self.phi.size))
          mu = self.target.mu_from_r_tilde(l_tilde)
          _mu = np.reshape(mu, (mu.size, 1))
          _epsilon = self.target.epsilon_mu(_mu, l_tilde)
          _phi_disk_mu = self.target.phi_disk_mu(_mu, l_tilde)
          _cos_psi = cos_psi(self.blob.mu_s, _mu, _phi)
          _s = _epsilon_1 * _epsilon * (1 - _cos_psi) / 2
          _integrand_mu = _phi_disk_mu / (_epsilon * np.power(_l, 3) * _mu
                                          * np.power(np.power(_mu, -2) - 1, 3 / 2))
          _integrand = _integrand_mu * (1 - _cos_psi) * sigma(_s)
          integral_mu = np.trapz(_integrand, mu, axis=0)
          integral_phi = np.trapz(integral_mu, self.phi, axis=0)
          integrand_l[i] = integral_phi.to_value("cm-1")
      integral[j] = np.trapz(integrand_l, self.l, axis=0).to_value("cm")
  prefactor_num = 3 * self.target.L_disk * self.target.R_g
  prefactor_denum = 16 * np.pi * self.target.eta * m_e * np.power(c, 3)
  tau = prefactor_num / prefactor_denum * integral
  \<close>
  (The \<^verbatim>\<open>print\<close> calls of the inner loop are left out.) \<open>disk_integral_phi\<close> is the body
  of the inner loop up to \<^verbatim>\<open>integral_phi\<close>, for one \<open>_epsilon_1\<close> and one \<open>_l\<close>.
\<close>

definition disk_integral_phi ::
  "phys \<Rightarrow> absorption \<Rightarrow> ssdisk \<Rightarrow> real \<Rightarrow> real \<Rightarrow> real" where
  "disk_integral_phi P A T e1 l =
     (let l_tilde = l / R_g T;
          mu = mu_from_r_tilde T l_tilde;
          integrand = (\<lambda>m phi.
            let epsilon = epsilon_mu T m l_tilde;
                cos_psi' = cos_psi (blob_mu_s (self_blob A)) m phi;
                s = e1 * epsilon * (1 - cos_psi') / 2;
                integrand_mu = phi_disk_mu T m l_tilde
                   / (epsilon * l ^ 3 * m * (1 / m\<^sup>2 - 1) powr (3 / 2))
            in integrand_mu * (1 - cos_psi') * sigma_elem P s);
          integral_mu = (\<lambda>phi. trapz (map (\<lambda>m. integrand m phi) mu) mu)
      in trapz (map integral_mu (self_phi A)) (self_phi A))"

text \<open>
  The inner loop. Its state is the array \<^verbatim>\<open>integrand_l\<close> and the variable \<^verbatim>\<open>j\<close>,
  which is unbound (\<open>None\<close>) until the loop has run once. The cell written is the one at
  \<open>i\<close>, the index of the outer loop.
\<close>

fun disk_loop_l ::
  "(real \<Rightarrow> real) \<Rightarrow> nat \<Rightarrow> (nat \<times> real) list \<Rightarrow> real list \<times> nat option
     \<Rightarrow> error + real list \<times> nat option" where
  "disk_loop_l f i [] st = Inr st"
| "disk_loop_l f i ((j, l) # rest) (integrand_l, jv) =
     (case setitem integrand_l i (f l) of
        Inl e \<Rightarrow> Inl e
      | Inr integrand_l' \<Rightarrow> disk_loop_l f i rest (integrand_l', Some j))"

text \<open>
  The outer loop. Its state is the array \<^verbatim>\<open>integral\<close> and the same variable \<^verbatim>\<open>j\<close>;
  \<open>fresh i\<close> is the \<^verbatim>\<open>np.empty\<close> array of the \<open>i\<close>-th round. The cell written is the one
  at \<open>j\<close>, as the inner loop left it.
\<close>

fun disk_loop_nu ::
  "(real \<Rightarrow> real \<Rightarrow> real) \<Rightarrow> (nat \<Rightarrow> real list) \<Rightarrow> real list \<Rightarrow> (nat \<times> real) list
     \<Rightarrow> real list \<times> nat option \<Rightarrow> error + real list \<times> nat option" where
  "disk_loop_nu f fresh ls [] st = Inr st"
| "disk_loop_nu f fresh ls ((i, e1) # rest) (integral, jv) =
     (case disk_loop_l (f e1) i (enumerate 0 ls) (fresh i, jv) of
        Inl e \<Rightarrow> Inl e
      | Inr (integrand_l, jv') \<Rightarrow>
          (case jv' of
             None \<Rightarrow> Inl UnboundLocalError
           | Some j \<Rightarrow>
               (case setitem integral j (trapz integrand_l ls) of
                  Inl e \<Rightarrow> Inl e
                | Inr integral' \<Rightarrow> disk_loop_nu f fresh ls rest (integral', Some j))))"

text \<open>
  \<open>cells 0\<close> is what \<^verbatim>\<open>np.empty\<close> hands out for \<^verbatim>\<open>integral\<close> and \<open>cells (Suc i)\<close> what it
  hands out for \<^verbatim>\<open>integrand_l\<close> in round \<open>i\<close>.
\<close>

definition opacity_disk ::
  "phys \<Rightarrow> (nat \<Rightarrow> nat \<Rightarrow> real) \<Rightarrow> absorption \<Rightarrow> ssdisk \<Rightarrow> real list \<Rightarrow> error + real list" where
  "opacity_disk P cells A T nu =
     (let epsilon_1 = epsilon_1_of P A nu;
          integral = np_empty (cells 0) (length epsilon_1)
      in case disk_loop_nu (disk_integral_phi P A T)
                (\<lambda>i. np_empty (cells (Suc i)) (length (self_l A)))
                (self_l A) (enumerate 0 epsilon_1) (integral, None) of
           Inl e \<Rightarrow> Inl e
         | Inr (integral', jv) \<Rightarrow>
             (let prefactor_num = 3 * ss_L_disk T * R_g T;
                  prefactor_denum = 16 * pi * eta T * m_e P * (c_cgs P) ^ 3
              in Inr (map (\<lambda>v. prefactor_num / prefactor_denum * v) integral')))"

subsection \<open>The dispatch\<close>

text \<open>
  \<^verbatim>\<open>
  def tau(self, nu):
      if isinstance(self.target, SSDisk):
          return self._opacity_disk(nu)
      if isinstance(self.target, SphericalShellBLR):
          return self._opacity_shell_blr(nu)
      if isinstance(self.target, RingDustTorus):
          return self._opacity_ring_torus(nu)
  \<close>
  A Python function that runs off its end returns \<^verbatim>\<open>None\<close>.
\<close>

datatype pyvalue = Array "real list" | PyNone

definition tau ::
  "phys \<Rightarrow> (nat \<Rightarrow> nat \<Rightarrow> real) \<Rightarrow> absorption \<Rightarrow> real list \<Rightarrow> error + pyvalue" where
  "tau P cells A nu =
     (case self_target A of
        SSDisk T \<Rightarrow>
          (case opacity_disk P cells A T nu of Inl e \<Rightarrow> Inl e | Inr v \<Rightarrow> Inr (Array v))
      | SphericalShellBLR T \<Rightarrow> Inr (Array (opacity_shell_blr P A T nu))
      | RingDustTorus T \<Rightarrow> Inr (Array (opacity_ring_torus P A T nu))
      | Unsupported \<Rightarrow> Inr PyNone)"

subsection \<open>The grid invariant\<close>

text \<open>
  What the data model asks of the three grids, for the sizes stored beside them: the
  cosine grid spans \<open>[-1, 1]\<close> and the azimuth grid \<open>[0, 2 pi]\<close> in equal steps, the path
  lengths run from the distance of the blob up to 3000 parsec, strictly increasing, in
  equal ratios.
\<close>

definition mu_grid_ok :: "absorption \<Rightarrow> bool" where
  "mu_grid_ok A =
     (int (length (self_mu A)) = self_mu_size A \<and> self_mu A \<noteq> []
      \<and> hd (self_mu A) = - 1 \<and> last (self_mu A) = 1
      \<and> successively (\<lambda>a b. b - a = 2 / (real (length (self_mu A)) - 1)) (self_mu A))"

definition phi_grid_ok :: "absorption \<Rightarrow> bool" where
  "phi_grid_ok A =
     (int (length (self_phi A)) = self_phi_size A \<and> self_phi A \<noteq> []
      \<and> hd (self_phi A) = 0 \<and> last (self_phi A) = 2 * pi
      \<and> successively (\<lambda>a b. b - a = 2 * pi / (real (length (self_phi A)) - 1)) (self_phi A))"

definition l_grid_ok :: "phys \<Rightarrow> absorption \<Rightarrow> bool" where
  "l_grid_ok P A =
     (int (length (self_l A)) = self_l_size A \<and> self_l A \<noteq> []
      \<and> hd (self_l A) = self_r A \<and> last (self_l A) = 3000 * pc_cm P
      \<and> sorted_wrt (<) (self_l A)
      \<and> successively
           (\<lambda>a b. b / a = (3000 * pc_cm P / self_r A) powr (1 / (real (length (self_l A)) - 1)))
           (self_l A))"

definition grids_ok :: "phys \<Rightarrow> absorption \<Rightarrow> bool" where
  "grids_ok P A = (mu_grid_ok A \<and> phi_grid_ok A \<and> l_grid_ok P A)"

text \<open>
  What the integration needs of the grids, and what every grid that came out of the
  setters has, degenerate sizes included: each grid ascends, and the cosines are cosines.
\<close>

definition grids_sorted :: "absorption \<Rightarrow> bool" where
  "grids_sorted A =
     (sorted (self_mu A) \<and> (\<forall>m\<in>set (self_mu A). \<bar>m\<bar> \<le> 1)
      \<and> sorted (self_phi A) \<and> sorted (self_l A))"

subsection \<open>Concrete inputs\<close>

text \<open>
  The CGS values of the constants, a blob, a shell and a ring, after the end-to-end
  scenario of the specification, for evaluating the model.
\<close>

definition cgs :: phys where
  "cgs = \<lparr>h_cgs = 662607015 / 10 ^ 35, c_cgs = 29979245800,
          m_e = 91093837015 / 10 ^ 38, sigma_T = 66524587321 / 10 ^ 35,
          pc_cm = 30856775814913673 * 100\<rparr>"

definition blob0 :: blob where
  "blob0 = \<lparr>blob_z = 1 / 10, blob_mu_s = 1 / 10\<rparr>"



section \<open>The cross section: formula, sign and threshold\<close>

lemma sigma_length: "length (sigma P s) = length s"
  by (simp add: sigma_def)


lemma sigma_elem_below: "s < 1 \<Longrightarrow> sigma_elem P s = 0"
  by (simp add: sigma_elem_def Let_def)

lemma beta_range:
  assumes "1 \<le> (s::real)"
  shows "0 \<le> sqrt (1 - 1 / s)" and "sqrt (1 - 1 / s) < 1"
proof -
  from assms have "0 < 1 / s" "1 / s \<le> 1" by simp_all
  then have "0 \<le> 1 - 1 / s" "1 - 1 / s < 1" by linarith+
  then show "0 \<le> sqrt (1 - 1 / s)" "sqrt (1 - 1 / s) < 1"
    by (simp_all add: real_sqrt_lt_1_iff)
qed

lemma ln_ratio_lower:
  assumes "0 \<le> (b::real)" "b < 1"
  shows "2 * b / (1 + b) \<le> ln ((1 + b) / (1 - b))"
proof -
  have pos: "0 < (1 - b) / (1 + b)" using assms by simp
  have "ln ((1 - b) / (1 + b)) \<le> (1 - b) / (1 + b) - 1"
    using pos by (rule ln_le_minus_one)
  also have "(1 - b) / (1 + b) - 1 = - (2 * b / (1 + b))"
    using assms by (simp add: field_simps)
  finally have "2 * b / (1 + b) \<le> - ln ((1 - b) / (1 + b))" by linarith
  also have "ln ((1 - b) / (1 + b)) = ln (1 - b) - ln (1 + b)"
    by (rule ln_divide_pos) (use assms in simp_all)
  also have "- (ln (1 - b) - ln (1 + b)) = ln (1 + b) - ln (1 - b)" by simp
  also have "\<dots> = ln ((1 + b) / (1 - b))"
    by (rule ln_divide_pos [symmetric]) (use assms in simp_all)
  finally show ?thesis .
qed

lemma bracket_nonneg:
  assumes "0 \<le> (b::real)" "b < 1"
  shows "0 \<le> (3 - b ^ 4) * ln ((1 + b) / (1 - b)) + - 2 * b * (2 - b\<^sup>2)"
proof -
  have b4: "b ^ 4 \<le> 1" using assms by (simp add: power_le_one)
  have "2 * b * (2 - b\<^sup>2) * (1 + b) \<le> (3 - b ^ 4) * (2 * b)"
  proof -
    have "(3 - b ^ 4) * (2 * b) - 2 * b * (2 - b\<^sup>2) * (1 + b)
            = 2 * b * ((1 - b)\<^sup>2 + b ^ 3 * (1 - b))"
      by (simp add: power2_eq_square power3_eq_cube power4_eq_xxxx algebra_simps)
    moreover have "0 \<le> 2 * b * ((1 - b)\<^sup>2 + b ^ 3 * (1 - b))"
      using assms by (intro mult_nonneg_nonneg add_nonneg_nonneg) simp_all
    ultimately show ?thesis by linarith
  qed
  then have "2 * b * (2 - b\<^sup>2) \<le> (3 - b ^ 4) * (2 * b) / (1 + b)"
    using assms by (simp add: pos_le_divide_eq)
  also have "\<dots> = (3 - b ^ 4) * (2 * b / (1 + b))" by simp
  also have "\<dots> \<le> (3 - b ^ 4) * ln ((1 + b) / (1 - b))"
    using ln_ratio_lower [OF assms] b4 by (intro mult_left_mono) simp_all
  finally show ?thesis by linarith
qed

lemma sigma_elem_nonneg:
  assumes "0 \<le> sigma_T P"
  shows "0 \<le> sigma_elem P s"
proof (cases "s < 1")
  case True
  then show ?thesis by (simp add: sigma_elem_below)
next
  case False
  then have s: "1 \<le> s" by simp
  define b where "b = sqrt (1 - 1 / s)"
  have b: "0 \<le> b" "b < 1" using beta_range [OF s] by (simp_all add: b_def)
  have b2: "b\<^sup>2 \<le> 1" using b by (simp add: power_le_one)
  have "0 \<le> 3 / 16 * sigma_T P * (1 - b\<^sup>2)"
    using assms b2 by simp
  then have "0 \<le> 3 / 16 * sigma_T P * (1 - b\<^sup>2)
      * ((3 - b ^ 4) * ln ((1 + b) / (1 - b)) + - 2 * b * (2 - b\<^sup>2))"
    using bracket_nonneg [OF b] by (rule mult_nonneg_nonneg)
  moreover have "sigma_elem P s = 3 / 16 * sigma_T P * (1 - b\<^sup>2)
      * ((3 - b ^ 4) * ln ((1 + b) / (1 - b)) + - 2 * b * (2 - b\<^sup>2))"
    unfolding sigma_elem_def Let_def b_def using False by (rule if_not_P)
  ultimately show ?thesis by simp
qed








section \<open>The scattering angle\<close>

text \<open>
  Claim C8, as stated: with one direction aligned (\<open>\<mu> = 1\<close>) the scattering-angle cosine
  is \<open>1\<close> whatever the azimuth and the other cosine. It is not: at the other cosine \<open>0\<close>
  it is \<open>0\<close>, whichever of the two arguments is the aligned one.
\<close>

theorem cos_psi_aligned_counterexample: "cos_psi 1 0 0 \<noteq> 1 \<and> cos_psi 0 1 0 \<noteq> 1"
  by (simp add: cos_psi_def)

text \<open>
  Claim C8, amended. With one direction aligned (\<open>\<mu> = 1\<close>) the scattering-angle cosine is
  the other cosine, whatever the azimuth; it is \<open>1\<close> when both cosines are \<open>1\<close>.
\<close>

theorem cos_psi_aligned:
  "cos_psi 1 mu phi = mu \<and> cos_psi mu 1 phi = mu \<and> cos_psi 1 1 phi = 1"
  by (simp add: cos_psi_def)

section \<open>The grids\<close>

lemma successively_map_upt:
  "successively Q (map f [0..<n]) \<longleftrightarrow> (\<forall>i. Suc i < n \<longrightarrow> Q (f i) (f (Suc i)))"
proof (induction n)
  case 0
  then show ?case by simp
next
  case (Suc n)
  show ?case
  proof (cases n)
    case 0
    then show ?thesis by simp
  next
    case (Suc m)
    have "successively Q (map f [0..<Suc n])
        \<longleftrightarrow> successively Q (map f [0..<n]) \<and> Q (f m) (f n)"
      using Suc by (auto simp: successively_append_iff last_map)
    then show ?thesis using Suc.IH Suc by (auto simp: less_Suc_eq)
  qed
qed

lemma linspace_negative: "num < 0 \<Longrightarrow> linspace a b num = Inl ValueError"
  by (simp add: linspace_def)

lemma linspace_one: "linspace a b 1 = Inr [a]"
  by (simp add: linspace_def)

lemma linspace_two_up:
  assumes "2 \<le> num"
  shows "linspace a b num
    = Inr (map (\<lambda>i. a + real i * ((b - a) / real (nat num - 1))) [0..<nat num])"
proof -
  have "(if 1 < nat num \<and> i = nat num - 1 then b
         else a + real i * ((b - a) / real (nat num - 1)))
        = a + real i * ((b - a) / real (nat num - 1))" for i
    using assms by (auto simp: field_simps)
  then show ?thesis using assms by (simp add: linspace_def Let_def)
qed

lemma linspace_props:
  assumes "2 \<le> num" and "linspace a b num = Inr g"
  shows "int (length g) = num" "g \<noteq> []" "hd g = a" "last g = b"
    "successively (\<lambda>x y. y - x = (b - a) / (real (length g) - 1)) g"
    "i < length g \<Longrightarrow> g ! i = a + real i * ((b - a) / (real (length g) - 1))"
proof -
  have g: "g = map (\<lambda>i. a + real i * ((b - a) / real (nat num - 1))) [0..<nat num]"
    using linspace_two_up [OF assms(1), of a b] assms(2) by simp
  have n: "2 \<le> nat num" using assms(1) by simp
  then have r: "real (nat num - 1) = real (nat num) - 1" by (simp add: of_nat_diff)
  show "int (length g) = num" using assms(1) by (simp add: g)
  show "g \<noteq> []" using n by (simp add: g)
  show "hd g = a" using n by (simp add: g hd_map)
  show "last g = b" using n by (simp add: g last_map)
  show "successively (\<lambda>x y. y - x = (b - a) / (real (length g) - 1)) g"
    unfolding g successively_map_upt by (simp add: r distrib_right add_divide_distrib)
  show "g ! i = a + real i * ((b - a) / (real (length g) - 1))" if "i < length g"
    using that by (simp add: g r)
qed


lemma logspace_two_up:
  assumes "2 \<le> num"
  shows "logspace a b num
    = Inr (map (\<lambda>i. 10 powr (a + real i * ((b - a) / real (nat num - 1)))) [0..<nat num])"
  by (simp add: logspace_def linspace_two_up [OF assms] comp_def)

lemma logspace_props:
  assumes "2 \<le> num" and "0 < r" and "r < lmax"
    and "logspace (log 10 r) (log 10 lmax) num = Inr g"
  shows "int (length g) = num" "g \<noteq> []" "hd g = r" "last g = lmax"
    "sorted_wrt (<) g"
    "successively (\<lambda>x y. y / x = (lmax / r) powr (1 / (real (length g) - 1))) g"
proof -
  define d where "d = (log 10 lmax - log 10 r) / real (nat num - 1)"
  have g: "g = map (\<lambda>i. 10 powr (log 10 r + real i * d)) [0..<nat num]"
    using logspace_two_up [OF assms(1), of "log 10 r" "log 10 lmax"] assms(4)
    by (simp add: d_def)
  have n: "2 \<le> nat num" using assms(1) by simp
  then have rn: "real (nat num - 1) = real (nat num) - 1" by (simp add: of_nat_diff)
  have rn_pos: "0 < real (nat num - 1)" using n by simp
  have n0: "0 < nat num" using n by simp
  have lmax: "0 < lmax" using assms(2,3) by simp
  have "log 10 r < log 10 lmax" using assms(2,3) by simp
  then have d_pos: "0 < d" using rn_pos by (simp add: d_def)
  have last_arg: "log 10 r + real (nat num - 1) * d = log 10 lmax"
    using rn_pos by (simp add: d_def)
  show "int (length g) = num" using assms(1) by (simp add: g)
  show "g \<noteq> []" using n by (simp add: g)
  show "hd g = r" using n0 assms(2) by (simp add: g hd_map)
  have "last g = 10 powr (log 10 r + real (nat num - 1) * d)"
    using n0 by (simp add: g last_map)
  also have "\<dots> = 10 powr (log 10 lmax)" by (simp only: last_arg)
  also have "\<dots> = lmax" using lmax by simp
  finally show "last g = lmax" .
  show "sorted_wrt (<) g"
    unfolding g sorted_wrt_map
    by (rule sorted_wrt_mono_rel [OF _ sorted_wrt_upt]) (use d_pos in simp)
  have ratio: "(lmax / r) powr (1 / (real (nat num) - 1)) = 10 powr d"
  proof -
    have "lmax / r = 10 powr (log 10 lmax - log 10 r)"
      using assms(2) lmax by (simp add: powr_diff)
    then show ?thesis using rn by (simp add: powr_powr d_def)
  qed
  have step: "10 powr (log 10 r + real (Suc i) * d) / 10 powr (log 10 r + real i * d)
      = 10 powr d" for i
    by (simp add: powr_diff [symmetric] distrib_right)
  have "successively (\<lambda>x y. y / x = 10 powr d) g"
    unfolding g successively_map_upt using step by blast
  moreover have "length g = nat num" by (simp add: g)
  ultimately show
    "successively (\<lambda>x y. y / x = (lmax / r) powr (1 / (real (length g) - 1))) g"
    by (simp only: ratio)
qed


lemma set_mu_frame:
  "self_phi (fst (set_mu n A)) = self_phi A"
  "self_phi_size (fst (set_mu n A)) = self_phi_size A"
  "self_l (fst (set_mu n A)) = self_l A"
  "self_l_size (fst (set_mu n A)) = self_l_size A"
  "self_blob (fst (set_mu n A)) = self_blob A"
  "self_target (fst (set_mu n A)) = self_target A"
  "self_r (fst (set_mu n A)) = self_r A"
  by (simp_all add: set_mu_def Let_def split: sum.splits)

lemma set_phi_frame:
  "self_mu (fst (set_phi n A)) = self_mu A"
  "self_mu_size (fst (set_phi n A)) = self_mu_size A"
  "self_l (fst (set_phi n A)) = self_l A"
  "self_l_size (fst (set_phi n A)) = self_l_size A"
  "self_blob (fst (set_phi n A)) = self_blob A"
  "self_target (fst (set_phi n A)) = self_target A"
  "self_r (fst (set_phi n A)) = self_r A"
  by (simp_all add: set_phi_def Let_def split: sum.splits)

lemma set_l_frame:
  "self_mu (fst (set_l P n A)) = self_mu A"
  "self_mu_size (fst (set_l P n A)) = self_mu_size A"
  "self_phi (fst (set_l P n A)) = self_phi A"
  "self_phi_size (fst (set_l P n A)) = self_phi_size A"
  "self_blob (fst (set_l P n A)) = self_blob A"
  "self_target (fst (set_l P n A)) = self_target A"
  "self_r (fst (set_l P n A)) = self_r A"
  by (simp_all add: set_l_def Let_def split: sum.splits)

lemma set_mu_grid:
  assumes "2 \<le> n"
  shows "snd (set_mu n A) = None" and "mu_grid_ok (fst (set_mu n A))"
proof -
  obtain g where g: "linspace (- 1) 1 n = Inr g"
    using linspace_two_up [OF assms] by blast
  have A': "set_mu n A = (A\<lparr>self_mu_size := n, self_mu := g\<rparr>, None)"
    by (simp add: set_mu_def g)
  show "snd (set_mu n A) = None" by (simp add: A')
  show "mu_grid_ok (fst (set_mu n A))"
    using linspace_props(1-5) [OF assms g] by (simp add: A' mu_grid_ok_def)
qed

lemma set_phi_grid:
  assumes "2 \<le> n"
  shows "snd (set_phi n A) = None" and "phi_grid_ok (fst (set_phi n A))"
proof -
  obtain g where g: "linspace 0 (2 * pi) n = Inr g"
    using linspace_two_up [OF assms] by blast
  have A': "set_phi n A = (A\<lparr>self_phi_size := n, self_phi := g\<rparr>, None)"
    by (simp add: set_phi_def g)
  show "snd (set_phi n A) = None" by (simp add: A')
  show "phi_grid_ok (fst (set_phi n A))"
    using linspace_props(1-5) [OF assms g] by (simp add: A' phi_grid_ok_def)
qed

lemma set_l_grid:
  assumes "2 \<le> n" and "0 < self_r A" and "self_r A < 3000 * pc_cm P"
  shows "snd (set_l P n A) = None" and "l_grid_ok P (fst (set_l P n A))"
proof -
  obtain g where g: "logspace (log 10 (self_r A)) (log 10 (3000 * pc_cm P)) n = Inr g"
    using logspace_two_up [OF assms(1)] by blast
  have A': "set_l P n A = (A\<lparr>self_l_size := n, self_l := g\<rparr>, None)"
    by (simp add: set_l_def g)
  show "snd (set_l P n A) = None" by (simp add: A')
  show "l_grid_ok P (fst (set_l P n A))"
    using logspace_props [OF assms g] by (simp add: A' l_grid_ok_def)
qed

lemma mu_grid_ok_cong:
  "self_mu A' = self_mu A \<Longrightarrow> self_mu_size A' = self_mu_size A
     \<Longrightarrow> mu_grid_ok A' = mu_grid_ok A"
  by (simp add: mu_grid_ok_def)

lemma phi_grid_ok_cong:
  "self_phi A' = self_phi A \<Longrightarrow> self_phi_size A' = self_phi_size A
     \<Longrightarrow> phi_grid_ok A' = phi_grid_ok A"
  by (simp add: phi_grid_ok_def)


lemma init_grids:
  assumes "0 < r" and "r < 3000 * pc_cm P"
  shows "snd (init P B T r) = None" and "grids_ok P (fst (init P B T r))"
    and "self_mu_size (fst (init P B T r)) = 100"
    and "self_phi_size (fst (init P B T r)) = 50"
    and "self_l_size (fst (init P B T r)) = 10"
    and "self_blob (fst (init P B T r)) = B"
    and "self_target (fst (init P B T r)) = T"
    and "self_r (fst (init P B T r)) = r"
proof -
  define A0 where "A0 = \<lparr>self_blob = B, self_target = T, self_r = r,
           self_mu_size = 0, self_mu = [], self_phi_size = 0, self_phi = [],
           self_l_size = 0, self_l = []\<rparr>"
  define A1 where "A1 = fst (set_mu 100 A0)"
  define A2 where "A2 = fst (set_phi 50 A1)"
  define A3 where "A3 = fst (set_l P 10 A2)"
  have r2: "self_r A2 = r" by (simp add: A2_def A1_def set_phi_frame set_mu_frame A0_def)
  have e1: "snd (set_mu 100 A0) = None" by (rule set_mu_grid) simp
  have e2: "snd (set_phi 50 A1) = None" by (rule set_phi_grid) simp
  have e3: "snd (set_l P 10 A2) = None" by (rule set_l_grid) (use assms r2 in simp_all)
  have init: "init P B T r = set_l P 10 A2"
    unfolding init_def A0_def [symmetric]
    by (simp add: and_then_def e1 e2 A1_def [symmetric] A2_def [symmetric])
  have m1: "mu_grid_ok A1" unfolding A1_def by (rule set_mu_grid) simp
  have p2: "phi_grid_ok A2" unfolding A2_def by (rule set_phi_grid) simp
  have l3: "l_grid_ok P A3" unfolding A3_def by (rule set_l_grid) (use assms r2 in simp_all)
  have m3: "mu_grid_ok A3"
    using m1 by (simp add: A3_def A2_def set_l_frame set_phi_frame cong: mu_grid_ok_cong)
  have p3: "phi_grid_ok A3"
    using p2 by (simp add: A3_def set_l_frame cong: phi_grid_ok_cong)
  show "snd (init P B T r) = None" by (simp add: init e3)
  show "grids_ok P (fst (init P B T r))"
    using m3 p3 l3 by (simp add: init grids_ok_def A3_def)
  show "self_mu_size (fst (init P B T r)) = 100"
    by (simp add: init set_l_frame A2_def set_phi_frame A1_def set_mu_def Let_def
        split: sum.splits)
  show "self_phi_size (fst (init P B T r)) = 50"
    by (simp add: init set_l_frame A2_def set_phi_def Let_def split: sum.splits)
  show "self_l_size (fst (init P B T r)) = 10"
    by (simp add: init set_l_def Let_def split: sum.splits)
  show "self_blob (fst (init P B T r)) = B"
    by (simp add: init set_l_frame A2_def set_phi_frame A1_def set_mu_frame A0_def)
  show "self_target (fst (init P B T r)) = T"
    by (simp add: init set_l_frame A2_def set_phi_frame A1_def set_mu_frame A0_def)
  show "self_r (fst (init P B T r)) = r"
    by (simp add: init set_l_frame r2)
qed


text \<open>
  Claim C10. Each of \<open>set_mu\<close>, \<open>set_phi\<close> and \<open>set_l\<close> changes its own grid and its own
  size only: whatever the size passed, and whether or not the call raises, the other two
  grids and their sizes, the blob, the target and the distance \<open>r\<close> of the object after
  the call are those before it.
\<close>

theorem setters_frame:
  "(let A' = fst (set_mu n A)
    in self_phi A' = self_phi A \<and> self_phi_size A' = self_phi_size A
       \<and> self_l A' = self_l A \<and> self_l_size A' = self_l_size A
       \<and> self_blob A' = self_blob A \<and> self_target A' = self_target A
       \<and> self_r A' = self_r A)
   \<and> (let A' = fst (set_phi n A)
    in self_mu A' = self_mu A \<and> self_mu_size A' = self_mu_size A
       \<and> self_l A' = self_l A \<and> self_l_size A' = self_l_size A
       \<and> self_blob A' = self_blob A \<and> self_target A' = self_target A
       \<and> self_r A' = self_r A)
   \<and> (let A' = fst (set_l P n A)
    in self_mu A' = self_mu A \<and> self_mu_size A' = self_mu_size A
       \<and> self_phi A' = self_phi A \<and> self_phi_size A' = self_phi_size A
       \<and> self_blob A' = self_blob A \<and> self_target A' = self_target A
       \<and> self_r A' = self_r A)"
  by (simp add: Let_def set_mu_frame set_phi_frame set_l_frame)




section \<open>The integrals of the shell and the ring\<close>

lemma trapz_nonneg:
  "sorted xs \<Longrightarrow> \<forall>y\<in>set ys. 0 \<le> y \<Longrightarrow> 0 \<le> trapz ys xs"
proof (induction ys xs rule: trapz.induct)
  case (1 y0 y1 ys x0 x1 xs)
  then have "0 \<le> trapz (y1 # ys) (x1 # xs)" by simp
  moreover have "0 \<le> (x1 - x0) * (y1 + y0) / 2"
    using "1.prems" by simp
  ultimately show ?case by simp
qed simp_all

lemma trapz_zero:
  "\<forall>y\<in>set ys. y = 0 \<Longrightarrow> trapz ys xs = 0"
  by (induction ys xs rule: trapz.induct) simp_all

lemma trapz_map_nonneg:
  "sorted xs \<Longrightarrow> (\<And>x. x \<in> set xs \<Longrightarrow> 0 \<le> f x) \<Longrightarrow> 0 \<le> trapz (map f xs) xs"
  by (rule trapz_nonneg) auto

lemma trapz_map_zero:
  "(\<And>x. x \<in> set xs \<Longrightarrow> f x = 0) \<Longrightarrow> trapz (map f xs) xs = 0"
  by (rule trapz_zero) auto

lemma cos_psi_bound:
  assumes "\<bar>a\<bar> \<le> 1" and "\<bar>b\<bar> \<le> 1"
  shows "\<bar>cos_psi a b phi\<bar> \<le> 1"
proof -
  define p where "p = sqrt (1 - a\<^sup>2)"
  define q where "q = sqrt (1 - b\<^sup>2)"
  have a2: "a\<^sup>2 \<le> 1" and b2: "b\<^sup>2 \<le> 1"
    using assms by (simp_all add: abs_square_le_1)
  have p: "0 \<le> p" "p\<^sup>2 = 1 - a\<^sup>2" using a2 by (simp_all add: p_def)
  have q: "0 \<le> q" "q\<^sup>2 = 1 - b\<^sup>2" using b2 by (simp_all add: q_def)
  have "\<bar>a * b + p * q * cos phi\<bar> \<le> \<bar>a * b\<bar> + \<bar>p * q * cos phi\<bar>" by (rule abs_triangle_ineq)
  also have "\<bar>p * q * cos phi\<bar> = p * q * \<bar>cos phi\<bar>" using p q by (simp add: abs_mult)
  also have "\<dots> \<le> p * q * 1"
    using p q by (intro mult_left_mono mult_nonneg_nonneg) simp_all
  finally have "\<bar>a * b + p * q * cos phi\<bar> \<le> \<bar>a\<bar> * \<bar>b\<bar> + p * q" by (simp add: abs_mult)
  moreover have "2 * (\<bar>a\<bar> * \<bar>b\<bar>) \<le> a\<^sup>2 + b\<^sup>2"
    using sum_squares_bound [of "\<bar>a\<bar>" "\<bar>b\<bar>"] by simp
  moreover have "2 * (p * q) \<le> p\<^sup>2 + q\<^sup>2"
    using sum_squares_bound [of p q] by simp
  ultimately have "\<bar>a * b + p * q * cos phi\<bar> \<le> 1" using p q by linarith
  then show ?thesis by (simp add: cos_psi_def p_def q_def)
qed

lemma mu_star_bound:
  assumes "\<bar>mu\<bar> \<le> 1"
  shows "\<bar>mu_star mu R l\<bar> \<le> 1"
proof -
  have mu2: "mu\<^sup>2 \<le> 1" using assms by (simp add: abs_square_le_1)
  have "(l - R * mu)\<^sup>2 = R\<^sup>2 + l\<^sup>2 - 2 * R * l * mu - R\<^sup>2 * (1 - mu\<^sup>2)"
    by (simp add: power2_eq_square algebra_simps)
  moreover have "0 \<le> R\<^sup>2 * (1 - mu\<^sup>2)" using mu2 by simp
  ultimately have le: "(l - R * mu)\<^sup>2 \<le> R\<^sup>2 + l\<^sup>2 - 2 * R * l * mu" by linarith
  then have "sqrt ((l - R * mu)\<^sup>2) \<le> sqrt (R\<^sup>2 + l\<^sup>2 - 2 * R * l * mu)"
    by (rule real_sqrt_le_mono)
  then have "\<bar>l - R * mu\<bar> \<le> x_re_shell mu R l" by (simp add: x_re_shell_def)
  moreover have "0 \<le> x_re_shell mu R l"
    unfolding x_re_shell_def
    by (rule real_sqrt_ge_zero) (rule order_trans [OF zero_le_power2 le])
  ultimately show ?thesis
    by (cases "x_re_shell mu R l = 0") (simp_all add: mu_star_def)
qed

lemma ring_mu_bound: "\<bar>l / x_re_ring R l\<bar> \<le> 1"
proof -
  have "sqrt (l\<^sup>2) \<le> sqrt (R\<^sup>2 + l\<^sup>2)" by (rule real_sqrt_le_mono) simp
  then have "\<bar>l\<bar> \<le> x_re_ring R l" by (simp add: x_re_ring_def)
  moreover have "0 \<le> x_re_ring R l" by (simp add: x_re_ring_def)
  ultimately show ?thesis by (cases "x_re_ring R l = 0") simp_all
qed





text \<open>
  Every setter keeps the grids ascending, whatever the size (a call that raises leaves its
  grid as it was), the path lengths as long as the blob is not beyond 3000 parsec.
\<close>

lemma linspace_sorted:
  assumes "a \<le> b" and "linspace a b num = Inr g"
  shows "sorted g" and "\<forall>x\<in>set g. a \<le> x \<and> x \<le> b"
proof -
  have num: "0 \<le> num" using assms(2) by (cases "num < 0") (simp_all add: linspace_def)
  consider "num = 0" | "num = 1" | "2 \<le> num" using num by linarith
  then have "sorted g \<and> (\<forall>x\<in>set g. a \<le> x \<and> x \<le> b)"
  proof cases
    case 1
    then show ?thesis using assms(2) by (simp add: linspace_def)
  next
    case 2
    then have "g = [a]" using assms(2) by (simp add: linspace_one)
    then show ?thesis using assms(1) by simp
  next
    case 3
    define d where "d = (b - a) / real (nat num - 1)"
    have g: "g = map (\<lambda>i. a + real i * d) [0..<nat num]"
      using linspace_two_up [OF 3, of a b] assms(2) by (simp add: d_def)
    have n: "0 < real (nat num - 1)" using 3 by simp
    have d: "0 \<le> d" using assms(1) n by (simp add: d_def)
    have top: "real (nat num - 1) * d = b - a" using n by (simp add: d_def)
    have "sorted g"
      unfolding g sorted_wrt_map
      by (rule sorted_wrt_mono_rel [OF _ sorted_wrt_upt]) (use d in \<open>simp add: mult_right_mono\<close>)
    moreover have "a \<le> a + real i * d \<and> a + real i * d \<le> b" if "i < nat num" for i
    proof -
      have "real i \<le> real (nat num - 1)" using that by simp
      then have "real i * d \<le> real (nat num - 1) * d" using d by (rule mult_right_mono)
      then show ?thesis using d top by simp
    qed
    ultimately show ?thesis by (auto simp: g)
  qed
  then show "sorted g" and "\<forall>x\<in>set g. a \<le> x \<and> x \<le> b" by simp_all
qed

lemma logspace_sorted:
  assumes "a \<le> b" and "logspace a b num = Inr g"
  shows "sorted g"
proof -
  obtain y where y: "linspace a b num = Inr y" and g: "g = map (\<lambda>v. 10 powr v) y"
    using assms(2) by (auto simp: logspace_def split: sum.splits)
  have "sorted y" using linspace_sorted(1) [OF assms(1) y] .
  then show ?thesis
    unfolding g sorted_wrt_map by (rule sorted_wrt_mono_rel [rotated]) simp
qed

lemma setters_keep_sorted:
  assumes "grids_sorted A"
  shows "grids_sorted (fst (set_mu n A))" and "grids_sorted (fst (set_phi n A))"
    and "0 < self_r A \<Longrightarrow> self_r A \<le> 3000 * pc_cm P \<Longrightarrow> grids_sorted (fst (set_l P n A))"
proof -
  show "grids_sorted (fst (set_mu n A))"
  proof (cases "linspace (- 1) 1 n")
    case (Inl e)
    then show ?thesis using assms by (simp add: set_mu_def grids_sorted_def)
  next
    case (Inr g)
    have "sorted g" "\<forall>x\<in>set g. \<bar>x\<bar> \<le> 1"
      using linspace_sorted [OF _ Inr] by (simp_all add: abs_le_iff)
    then show ?thesis using assms Inr by (simp add: set_mu_def grids_sorted_def)
  qed
  show "grids_sorted (fst (set_phi n A))"
  proof (cases "linspace 0 (2 * pi) n")
    case (Inl e)
    then show ?thesis using assms by (simp add: set_phi_def grids_sorted_def)
  next
    case (Inr g)
    have "sorted g" using linspace_sorted(1) [OF _ Inr] by simp
    then show ?thesis using assms Inr by (simp add: set_phi_def grids_sorted_def)
  qed
  show "grids_sorted (fst (set_l P n A))" if r: "0 < self_r A" "self_r A \<le> 3000 * pc_cm P"
  proof (cases "logspace (log 10 (self_r A)) (log 10 (3000 * pc_cm P)) n")
    case (Inl e)
    then show ?thesis using assms by (simp add: set_l_def grids_sorted_def)
  next
    case (Inr g)
    have "log 10 (self_r A) \<le> log 10 (3000 * pc_cm P)" using r by simp
    then have "sorted g" using Inr by (rule logspace_sorted)
    then show ?thesis using assms Inr by (simp add: set_l_def grids_sorted_def)
  qed
qed

lemma one_minus_cos_psi:
  assumes "\<bar>a\<bar> \<le> 1" and "\<bar>b\<bar> \<le> 1"
  shows "0 \<le> 1 - cos_psi a b phi" and "1 - cos_psi a b phi \<le> 2"
  using cos_psi_bound [OF assms, of phi] by simp_all

lemma shell_integrand_nonneg:
  assumes "0 \<le> sigma_T P" and "\<bar>blob_mu_s (self_blob A)\<bar> \<le> 1" and "\<bar>mu\<bar> \<le> 1"
  shows "0 \<le> shell_integrand P A T mu phi l e1"
  unfolding shell_integrand_def Let_def
  using one_minus_cos_psi(1) [OF assms(2) mu_star_bound [OF assms(3)]]
    sigma_elem_nonneg [OF assms(1)]
  by (intro mult_nonneg_nonneg) simp_all

lemma ring_integrand_nonneg:
  assumes "0 \<le> sigma_T P" and "\<bar>blob_mu_s (self_blob A)\<bar> \<le> 1"
  shows "0 \<le> ring_integrand P A T phi l e1"
  unfolding ring_integrand_def Let_def
  using one_minus_cos_psi(1) [OF assms(2) ring_mu_bound] sigma_elem_nonneg [OF assms(1)]
  by (intro mult_nonneg_nonneg) simp_all

lemma below_threshold:
  assumes "0 \<le> k" and "k < 1" and "0 \<le> w" and "w \<le> 2"
  shows "k * w / 2 < (1::real)"
proof -
  have "k * w \<le> k * 2" using assms by (intro mult_left_mono) simp_all
  then show ?thesis using assms by simp
qed


lemma ring_integrand_below:
  assumes "\<bar>blob_mu_s (self_blob A)\<bar> \<le> 1"
    and "0 \<le> e1 * epsilon_dt T" and "e1 * epsilon_dt T < 1"
  shows "ring_integrand P A T phi l e1 = 0"
  unfolding ring_integrand_def Let_def
  using below_threshold [OF assms(2,3) one_minus_cos_psi [OF assms(1) ring_mu_bound]]
  by (simp add: sigma_elem_below)

lemma shell_integral_nonneg:
  assumes "0 \<le> sigma_T P" and "\<bar>blob_mu_s (self_blob A)\<bar> \<le> 1" and "grids_sorted A"
  shows "0 \<le> shell_integral P A T e1"
proof -
  from assms(3) have s: "sorted (self_mu A)" "sorted (self_phi A)" "sorted (self_l A)"
    and m: "\<And>m. m \<in> set (self_mu A) \<Longrightarrow> \<bar>m\<bar> \<le> 1"
    by (simp_all add: grids_sorted_def)
  show ?thesis
    unfolding shell_integral_def Let_def
    by (intro trapz_map_nonneg s shell_integrand_nonneg assms(1,2) m)
qed

lemma ring_integral_nonneg:
  assumes "0 \<le> sigma_T P" and "\<bar>blob_mu_s (self_blob A)\<bar> \<le> 1" and "grids_sorted A"
  shows "0 \<le> ring_integral P A T e1"
proof -
  from assms(3) have s: "sorted (self_phi A)" "sorted (self_l A)"
    by (simp_all add: grids_sorted_def)
  show ?thesis
    unfolding ring_integral_def Let_def
    by (intro trapz_map_nonneg s ring_integrand_nonneg assms(1,2))
qed


lemma ring_integral_below:
  assumes "\<bar>blob_mu_s (self_blob A)\<bar> \<le> 1"
    and "0 \<le> e1 * epsilon_dt T" and "e1 * epsilon_dt T < 1"
  shows "ring_integral P A T e1 = 0"
  unfolding ring_integral_def Let_def
  by (intro trapz_map_zero ring_integrand_below assms)

section \<open>The optical depth of the shell and the ring\<close>

lemma opacity_shell_blr_length: "length (opacity_shell_blr P A T nu) = length nu"
  by (simp add: opacity_shell_blr_def epsilon_1_of_def)

lemma opacity_ring_torus_length: "length (opacity_ring_torus P A T nu) = length nu"
  by (simp add: opacity_ring_torus_def epsilon_1_of_def)

lemma epsilon_1_of_length: "length (epsilon_1_of P A nu) = length nu"
  by (simp add: epsilon_1_of_def)

lemma epsilon_1_of_target [simp]:
  "epsilon_1_of P (A\<lparr>self_target := t\<rparr>) nu = epsilon_1_of P A nu"
  by (simp add: epsilon_1_of_def)

lemma shell_integral_xi [simp]:
  "shell_integral P A (T\<lparr>xi_line := x\<rparr>) e1 = shell_integral P A T e1"
  by (simp add: shell_integral_def shell_integrand_def)

lemma ring_integral_xi [simp]:
  "ring_integral P A (T\<lparr>xi_dt := x\<rparr>) e1 = ring_integral P A T e1"
  by (simp add: ring_integral_def ring_integrand_def)

lemma opacity_shell_blr_nth:
  assumes "i < length nu"
  shows "opacity_shell_blr P A T nu ! i
    = xi_line T * blr_L_disk T / ((4 * pi)\<^sup>2 * epsilon_line T * m_e P * (c_cgs P) ^ 3)
        * shell_integral P A T (epsilon_1_of P A nu ! i)"
  using assms by (simp add: opacity_shell_blr_def Let_def epsilon_1_of_length)

lemma opacity_ring_torus_nth:
  assumes "i < length nu"
  shows "opacity_ring_torus P A T nu ! i
    = xi_dt T * dt_L_disk T / ((4 * pi)\<^sup>2 * epsilon_dt T * m_e P * (c_cgs P) ^ 3)
        * ring_integral P A T (epsilon_1_of P A nu ! i)"
  using assms by (simp add: opacity_ring_torus_def Let_def epsilon_1_of_length)


lemma prefactor_denum_pos:
  assumes "0 < m_e P" and "0 < c_cgs P" and "0 < eps"
  shows "0 < (4 * pi)\<^sup>2 * eps * m_e P * (c_cgs P) ^ 3"
  using assms by simp

text \<open>
  Claim C2, as stated: \<open>tau\<close> on an instance whose target is none of the three supported
  variants fails with an error. It does not: on a freshly constructed instance with such a
  target the call raises nothing (its result is not an \<open>Inl\<close>).
\<close>

theorem tau_unsupported_counterexample:
  "self_target (fst (init cgs blob0 Unsupported (10 ^ 16))) = Unsupported
    \<and> \<not> isl (tau cgs (\<lambda>i k. 0) (fst (init cgs blob0 Unsupported (10 ^ 16))) [10 ^ 26])"
proof -
  have r: "(0::real) < 10 ^ 16" "(10 ^ 16 :: real) < 3000 * pc_cm cgs"
    by (simp_all add: cgs_def)
  have t: "self_target (fst (init cgs blob0 Unsupported (10 ^ 16))) = Unsupported"
    by (rule init_grids(7) [OF r])
  have "tau cgs (\<lambda>i k. 0) (fst (init cgs blob0 Unsupported (10 ^ 16))) [10 ^ 26] = Inr PyNone"
    unfolding tau_def t by simp
  then show ?thesis using t by simp
qed

text \<open>
  Claim C2, amended. Whenever \<open>tau\<close> is invoked on an instance whose target is none of the
  three supported variants, no branch of the dispatch is taken: the call raises nothing
  and returns \<^verbatim>\<open>None\<close>, so the caller gets no array, partial or whole.
\<close>

theorem tau_unsupported:
  assumes "self_target A = Unsupported"
  shows "tau P cells A nu = Inr PyNone"
  using assms by (simp add: tau_def)

theorem tau_unsupported_witness:
  "self_target (fst (init cgs blob0 Unsupported (10 ^ 16))) = Unsupported
    \<and> tau cgs (\<lambda>i k. 0) (fst (init cgs blob0 Unsupported (10 ^ 16))) [10 ^ 26] = Inr PyNone"
proof -
  have r: "(0::real) < 10 ^ 16" "(10 ^ 16 :: real) < 3000 * pc_cm cgs"
    by (simp_all add: cgs_def)
  have t: "self_target (fst (init cgs blob0 Unsupported (10 ^ 16))) = Unsupported"
    by (rule init_grids(7) [OF r])
  show ?thesis using tau_unsupported [OF t, of cgs "\<lambda>i k. 0" "[10 ^ 26]"] t by simp
qed


lemma tau_shell:
  "self_target A = SphericalShellBLR T \<Longrightarrow> tau P cells A nu = Inr (Array (opacity_shell_blr P A T nu))"
  by (simp add: tau_def)

lemma tau_ring:
  "self_target A = RingDustTorus T \<Longrightarrow> tau P cells A nu = Inr (Array (opacity_ring_torus P A T nu))"
  by (simp add: tau_def)

lemma opacity_shell_blr_target [simp]:
  "opacity_shell_blr P (A\<lparr>self_target := t\<rparr>) T nu = opacity_shell_blr P A T nu"
  by (simp add: opacity_shell_blr_def shell_integral_def shell_integrand_def)

lemma opacity_ring_torus_target [simp]:
  "opacity_ring_torus P (A\<lparr>self_target := t\<rparr>) T nu = opacity_ring_torus P A T nu"
  by (simp add: opacity_ring_torus_def ring_integral_def ring_integrand_def)


lemma opacity_ring_torus_below:
  assumes "\<bar>blob_mu_s (self_blob A)\<bar> \<le> 1"
    and "\<forall>e\<in>set (epsilon_1_of P A nu). 0 \<le> e * epsilon_dt T \<and> e * epsilon_dt T < 1"
  shows "opacity_ring_torus P A T nu = replicate (length nu) 0"
proof (rule nth_equalityI)
  show "length (opacity_ring_torus P A T nu) = length (replicate (length nu) 0)"
    by (simp add: opacity_ring_torus_length)
next
  fix i assume "i < length (opacity_ring_torus P A T nu)"
  then have i: "i < length nu" by (simp add: opacity_ring_torus_length)
  then have "epsilon_1_of P A nu ! i \<in> set (epsilon_1_of P A nu)"
    by (simp add: epsilon_1_of_length)
  then have "ring_integral P A T (epsilon_1_of P A nu ! i) = 0"
    using assms(2) by (intro ring_integral_below assms(1)) auto
  then show "opacity_ring_torus P A T nu ! i = replicate (length nu) 0 ! i"
    using i by (simp add: opacity_ring_torus_nth)
qed






section \<open>The optical depth of the disk\<close>

lemma setitem_length: "setitem a i v = Inr a' \<Longrightarrow> length a' = length a"
  by (auto simp: setitem_def split: if_splits)

lemma np_empty_length [simp]: "length (np_empty c n) = n"
  by (simp add: np_empty_def)

lemma disk_loop_l_run:
  assumes "ls \<noteq> []"
  shows "disk_loop_l f i (enumerate k ls) (a, jv)
    = (if i < length a then Inr (a[i := f (last ls)], Some (k + length ls - 1))
       else Inl IndexError)"
  using assms
proof (induction ls arbitrary: k a jv)
  case Nil
  then show ?case by simp
next
  case (Cons x xs)
  show ?case
  proof (cases "xs = []")
    case True
    then show ?thesis by (simp add: setitem_def)
  next
    case False
    from Cons.IH [OF False, of "Suc k" "a[i := f x]" "Some k"]
    show ?thesis using False by (simp add: setitem_def)
  qed
qed

lemma disk_loop_l_empty: "disk_loop_l f i (enumerate k []) st = Inr st"
  by simp

lemma disk_loop_nu_short:
  assumes "ls \<noteq> []" and "es \<noteq> []" and "length integral \<le> length ls - 1"
    and "\<And>i. length (fresh i) = length ls"
  shows "disk_loop_nu f fresh ls (enumerate k es) (integral, jv) = Inl IndexError"
proof -
  obtain e rest where es: "es = e # rest" using assms(2) by (cases es) auto
  show ?thesis
    using assms(3) by (simp add: es disk_loop_l_run [OF assms(1)] assms(4) setitem_def)
qed

lemma disk_loop_nu_long:
  assumes "ls \<noteq> []" and "length ls - 1 < length integral"
    and "k \<le> length ls" and "length ls < k + length es"
    and "\<And>i. length (fresh i) = length ls"
  shows "disk_loop_nu f fresh ls (enumerate k es) (integral, jv) = Inl IndexError"
  using assms(2-4)
proof (induction es arbitrary: k integral jv)
  case Nil
  then show ?case by simp
next
  case (Cons e rest)
  show ?case
  proof (cases "k < length ls")
    case True
    have "disk_loop_nu f fresh ls (enumerate (Suc k) rest)
        (integral[length ls - 1 := v], Some (length ls - 1)) = Inl IndexError" for v
      using Cons.prems True by (intro Cons.IH) simp_all
    then show ?thesis
      using True Cons.prems(1)
      by (simp add: disk_loop_l_run [OF assms(1)] assms(5) setitem_def)
  next
    case False
    then show ?thesis
      by (simp add: disk_loop_l_run [OF assms(1)] assms(5))
  qed
qed

lemma disk_loop_nu_fit:
  assumes "ls \<noteq> []" and "length ls - 1 < length integral"
    and "es \<noteq> []" and "k + length es \<le> length ls"
    and "\<And>i. length (fresh i) = length ls"
  shows "disk_loop_nu f fresh ls (enumerate k es) (integral, jv)
    = Inr (integral[length ls - 1 :=
             trapz ((fresh (k + length es - 1))[k + length es - 1 := f (last es) (last ls)]) ls],
           Some (length ls - 1))"
  using assms(2-4)
proof (induction es arbitrary: k integral jv)
  case Nil
  then show ?case by simp
next
  case (Cons e rest)
  have k: "k < length ls" using Cons.prems(3) by simp
  show ?case
  proof (cases "rest = []")
    case True
    then show ?thesis
      using k Cons.prems(1)
      by (simp add: disk_loop_l_run [OF assms(1)] assms(5) setitem_def)
  next
    case False
    have "disk_loop_nu f fresh ls (enumerate (Suc k) rest)
        (integral[length ls - 1 := v], Some (length ls - 1))
      = Inr (integral[length ls - 1 := v, length ls - 1 :=
             trapz ((fresh (Suc k + length rest - 1))
                       [Suc k + length rest - 1 := f (last rest) (last ls)]) ls],
           Some (length ls - 1))" for v
      using Cons.prems False by (intro Cons.IH) simp_all
    then show ?thesis
      using k Cons.prems(1) False
      by (simp add: disk_loop_l_run [OF assms(1)] assms(5) setitem_def)
  qed
qed


lemma opacity_disk_outcome:
  "opacity_disk P cells A T nu =
     (if nu = [] then Inr []
      else if self_l A = [] then Inl UnboundLocalError
      else if length nu \<noteq> length (self_l A) then Inl IndexError
      else Inr (map (\<lambda>v. 3 * ss_L_disk T * R_g T / (16 * pi * eta T * m_e P * (c_cgs P) ^ 3) * v)
             ((np_empty (cells 0) (length nu))[length nu - 1 :=
                trapz ((np_empty (cells (length nu)) (length nu))[length nu - 1 :=
                         disk_integral_phi P A T (last (epsilon_1_of P A nu)) (last (self_l A))])
                      (self_l A)])))"
proof -
  define es where "es = epsilon_1_of P A nu"
  define fresh where "fresh = (\<lambda>i. np_empty (cells (Suc i)) (length (self_l A)))"
  define run where "run = disk_loop_nu (disk_integral_phi P A T) fresh (self_l A)
      (enumerate 0 es) (np_empty (cells 0) (length es), None)"
  have len: "length es = length nu" by (simp add: es_def epsilon_1_of_def)
  have fresh: "length (fresh i) = length (self_l A)" for i by (simp add: fresh_def)
  have od: "opacity_disk P cells A T nu =
      (case run of Inl e \<Rightarrow> Inl e
       | Inr (integral', jv) \<Rightarrow>
           Inr (map (\<lambda>v. 3 * ss_L_disk T * R_g T / (16 * pi * eta T * m_e P * (c_cgs P) ^ 3) * v)
                  integral'))"
    by (simp add: opacity_disk_def Let_def run_def es_def fresh_def
        split: sum.splits prod.splits)
  consider (none) "nu = []" | (nol) "nu \<noteq> []" "self_l A = []"
    | (short) "nu \<noteq> []" "self_l A \<noteq> []" "length nu < length (self_l A)"
    | (long) "nu \<noteq> []" "self_l A \<noteq> []" "length (self_l A) < length nu"
    | (fit) "nu \<noteq> []" "self_l A \<noteq> []" "length nu = length (self_l A)"
    using linorder_cases [of "length nu" "length (self_l A)"] by blast
  then show ?thesis
  proof cases
    case none
    then have "es = []" using len by simp
    then have "run = Inr ([], None)" by (simp add: run_def np_empty_def)
    then have "opacity_disk P cells A T nu = Inr []" by (simp add: od)
    then show ?thesis using none by simp
  next
    case nol
    then obtain e rest where "es = e # rest" using len by (cases es) auto
    then have "run = Inl UnboundLocalError" using nol(2) by (simp add: run_def)
    then have "opacity_disk P cells A T nu = Inl UnboundLocalError" by (simp add: od)
    then show ?thesis using nol by simp
  next
    case short
    have "es \<noteq> []" using short(1) len by auto
    moreover have "length (np_empty (cells 0) (length es)) \<le> length (self_l A) - 1"
      using short(3) len by simp
    ultimately have "run = Inl IndexError"
      unfolding run_def using fresh by (intro disk_loop_nu_short short(2))
    then have "opacity_disk P cells A T nu = Inl IndexError" by (simp add: od)
    then show ?thesis using short by simp
  next
    case long
    have "length (self_l A) - 1 < length (np_empty (cells 0) (length es))"
      using long(2,3) len by simp
    moreover have "length (self_l A) < 0 + length es" using long(3) len by simp
    ultimately have "run = Inl IndexError"
      unfolding run_def using fresh by (intro disk_loop_nu_long long(2)) simp_all
    then have "opacity_disk P cells A T nu = Inl IndexError" by (simp add: od)
    then show ?thesis using long by simp
  next
    case fit
    have ne: "es \<noteq> []" using fit(1) len by auto
    have "length (self_l A) - 1 < length (np_empty (cells 0) (length es))"
      using fit len by (cases nu) simp_all
    moreover have "0 + length es \<le> length (self_l A)" using fit(3) len by simp
    ultimately have "run = Inr ((np_empty (cells 0) (length es))[length (self_l A) - 1 :=
             trapz ((fresh (0 + length es - 1))[0 + length es - 1 :=
                disk_integral_phi P A T (last es) (last (self_l A))]) (self_l A)],
           Some (length (self_l A) - 1))"
      unfolding run_def using fresh ne by (intro disk_loop_nu_fit fit(2)) simp_all
    moreover have "fresh (length nu - 1) = np_empty (cells (length nu)) (length nu)"
      using fit by (cases nu) (simp_all add: fresh_def)
    ultimately show ?thesis using fit len by (simp add: od es_def)
  qed
qed

lemma init_shape:
  "snd (init P B T r) = None" "self_target (fst (init P B T r)) = T"
  "self_blob (fst (init P B T r)) = B" "length (self_l (fst (init P B T r))) = 10"
  by (simp_all add: init_def and_then_def set_mu_def set_phi_def set_l_def
      linspace_two_up logspace_two_up)


lemma disk_integral_phi_target:
  "disk_integral_phi P (A\<lparr>self_target := t\<rparr>) T e1 l = disk_integral_phi P A T e1 l"
  by (simp add: disk_integral_phi_def)

lemma opacity_disk_target:
  "opacity_disk P cells (A\<lparr>self_target := t\<rparr>) T nu = opacity_disk P cells A T nu"
  by (simp add: opacity_disk_outcome disk_integral_phi_target epsilon_1_of_def)

text \<open>
  Claim C1 asks that, for a disk target, the \<open>i\<close>-th element of the array returned by
  \<open>tau\<close> be the nested trapezoidal integral of the \<open>i\<close>-th frequency and that every
  element be written. The two loops write \<^verbatim>\<open>integrand_l[i]\<close> and \<^verbatim>\<open>integral[j]\<close>, each with
  the index of the other loop. What \<open>tau\<close> does on a disk target, whatever the instance,
  the frequencies and the contents of the uninitialised arrays: without a frequency it
  returns the empty array; with an empty path-length grid it raises
  \<^verbatim>\<open>UnboundLocalError\<close>; with a number of frequencies other than the number of path lengths
  it raises \<^verbatim>\<open>IndexError\<close>; with the two equal it returns an array of which the last cell
  alone was written, and written with the trapezoid of an array of which the last cell
  alone was written.
\<close>

theorem tau_disk_outcome:
  "tau P cells (A\<lparr>self_target := SSDisk T\<rparr>) nu =
     (if nu = [] then Inr (Array [])
      else if self_l A = [] then Inl UnboundLocalError
      else if length nu \<noteq> length (self_l A) then Inl IndexError
      else Inr (Array
             (map (\<lambda>v. 3 * ss_L_disk T * R_g T / (16 * pi * eta T * m_e P * (c_cgs P) ^ 3) * v)
             ((np_empty (cells 0) (length nu))[length nu - 1 :=
                trapz ((np_empty (cells (length nu)) (length nu))[length nu - 1 :=
                         disk_integral_phi P A T (last (epsilon_1_of P A nu)) (last (self_l A))])
                      (self_l A)]))))"
  by (simp add: tau_def opacity_disk_target) (simp add: opacity_disk_outcome)

text \<open>
  Claim C4 asks of \<open>tau\<close>, for every supported target, one non-negative value per input
  frequency. On a freshly constructed instance with a disk target (ten path lengths) and
  one frequency, \<open>tau\<close> raises \<^verbatim>\<open>IndexError\<close> and returns no array. After \<^verbatim>\<open>set_l(2)\<close> and
  on two frequencies it returns two values of which the first is the prefactor times the
  uninitialised cell \<open>cells 0 0\<close>: a value computed from no frequency and of any sign.
\<close>

theorem tau_disk_fresh_instance:
  "tau P cells (fst (init P B (SSDisk T) r)) [nu0] = Inl IndexError
   \<and> (\<exists>v. tau P cells (fst (set_l P 2 (fst (init P B (SSDisk T) r)))) [nu0, nu1]
              = Inr (Array v)
          \<and> length v = 2
          \<and> v ! 0 = 3 * ss_L_disk T * R_g T / (16 * pi * eta T * m_e P * (c_cgs P) ^ 3)
                       * cells 0 0)"
proof
  define A where "A = fst (init P B (SSDisk T) r)"
  have t: "self_target A = SSDisk T" and l: "length (self_l A) = 10"
    by (simp_all add: A_def init_shape)
  have "self_l A \<noteq> []" using l by auto
  then have "opacity_disk P cells A T [nu0] = Inl IndexError"
    using l by (simp add: opacity_disk_outcome)
  then show "tau P cells (fst (init P B (SSDisk T) r)) [nu0] = Inl IndexError"
    using t by (simp add: tau_def A_def)
  define A2 where "A2 = fst (set_l P 2 A)"
  have t2: "self_target A2 = SSDisk T" by (simp add: A2_def set_l_frame t)
  have l2: "length (self_l A2) = 2"
    by (simp add: A2_def set_l_def logspace_two_up)
  then have "self_l A2 \<noteq> []" by auto
  then have "\<exists>v. opacity_disk P cells A2 T [nu0, nu1] = Inr v \<and> length v = 2
      \<and> v ! 0 = 3 * ss_L_disk T * R_g T / (16 * pi * eta T * m_e P * (c_cgs P) ^ 3) * cells 0 0"
    using l2 by (simp add: opacity_disk_outcome np_empty_def)
  then show "\<exists>v. tau P cells (fst (set_l P 2 (fst (init P B (SSDisk T) r)))) [nu0, nu1]
              = Inr (Array v)
          \<and> length v = 2
          \<and> v ! 0 = 3 * ss_L_disk T * R_g T / (16 * pi * eta T * m_e P * (c_cgs P) ^ 3)
                       * cells 0 0"
    using t2 by (auto simp: tau_def A2_def A_def)
qed


text \<open>
  For the shell and the ring the output contract holds: one value per frequency, in order
  (the result is a \<open>map\<close> over the frequencies), each non-negative.
\<close>

lemma tau_shell_nonneg:
  assumes "0 \<le> sigma_T P" and "0 < m_e P" and "0 < c_cgs P"
    and "\<bar>blob_mu_s (self_blob A)\<bar> \<le> 1" and "grids_sorted A"
    and "self_target A = SphericalShellBLR T"
    and "0 \<le> xi_line T" and "0 \<le> blr_L_disk T" and "0 < epsilon_line T"
  shows "\<exists>v. tau P cells A nu = Inr (Array v) \<and> length v = length nu \<and> (\<forall>x\<in>set v. 0 \<le> x)"
proof -
  have "0 \<le> opacity_shell_blr P A T nu ! i" if "i < length nu" for i
  proof -
    have "0 \<le> xi_line T * blr_L_disk T / ((4 * pi)\<^sup>2 * epsilon_line T * m_e P * (c_cgs P) ^ 3)"
      using assms(7,8) prefactor_denum_pos [OF assms(2,3,9)] by simp
    then show ?thesis
      unfolding opacity_shell_blr_nth [OF that]
      using shell_integral_nonneg [OF assms(1,4,5)] by (rule mult_nonneg_nonneg)
  qed
  then have "\<forall>x\<in>set (opacity_shell_blr P A T nu). 0 \<le> x"
    by (auto simp: in_set_conv_nth opacity_shell_blr_length)
  then show ?thesis by (simp add: tau_shell [OF assms(6)] opacity_shell_blr_length)
qed

lemma tau_ring_nonneg:
  assumes "0 \<le> sigma_T P" and "0 < m_e P" and "0 < c_cgs P"
    and "\<bar>blob_mu_s (self_blob A)\<bar> \<le> 1" and "grids_sorted A"
    and "self_target A = RingDustTorus T"
    and "0 \<le> xi_dt T" and "0 \<le> dt_L_disk T" and "0 < epsilon_dt T"
  shows "\<exists>v. tau P cells A nu = Inr (Array v) \<and> length v = length nu \<and> (\<forall>x\<in>set v. 0 \<le> x)"
proof -
  have "0 \<le> opacity_ring_torus P A T nu ! i" if "i < length nu" for i
  proof -
    have "0 \<le> xi_dt T * dt_L_disk T / ((4 * pi)\<^sup>2 * epsilon_dt T * m_e P * (c_cgs P) ^ 3)"
      using assms(7,8) prefactor_denum_pos [OF assms(2,3,9)] by simp
    then show ?thesis
      unfolding opacity_ring_torus_nth [OF that]
      using ring_integral_nonneg [OF assms(1,4,5)] by (rule mult_nonneg_nonneg)
  qed
  then have "\<forall>x\<in>set (opacity_ring_torus P A T nu). 0 \<le> x"
    by (auto simp: in_set_conv_nth opacity_ring_torus_length)
  then show ?thesis by (simp add: tau_ring [OF assms(6)] opacity_ring_torus_length)
qed

end
